theory Spec2Isabelle
  imports Complex_Main
begin

section \<open>Terrain attributes from a digital elevation model\<close>

text \<open>
  The notebook derives terrain attributes from an elevation raster with numpy, scipy and
  richdem. A two-dimensional array is a list of rows; a raster of shape \<open>(h, w)\<close> has
  \<open>h\<close> rows of \<open>w\<close> cells each. A Python exception is a value of \<open>error\<close>, and a
  function that can raise returns \<open>error + 'a\<close>.
\<close>

type_synonym 'a array2 = "'a list list"

datatype error = ValueError string | IndexError string

definition width :: "'a array2 \<Rightarrow> nat" where
  "width a = (case a of [] \<Rightarrow> 0 | r # _ \<Rightarrow> length r)"

definition in_grid :: "'a array2 \<Rightarrow> nat \<times> nat \<Rightarrow> bool" where
  "in_grid r p = (fst p < length r \<and> snd p < length (r ! fst p))"

definition raster_on :: "nat \<times> nat \<Rightarrow> 'a array2 \<Rightarrow> bool" where
  "raster_on sh a = (length a = fst sh \<and> list_all (\<lambda>r. length r = snd sh) a)"

subsection \<open>Depression filling: \<open>fill_depressions\<close>\<close>

text \<open>
  The elevation values are finite floats (no-data cells are excluded by the caller), and
  the function only compares them and takes minima and maxima, which is exact: a value
  is a real number here. \<open>amin\<close> is \<open>filled_dem.min()\<close>, which raises on an array
  without cells; \<open>maximum_scalar\<close> and \<open>maximum\<close> are \<open>np.maximum\<close> with a scalar
  and with an array of the same shape; \<open>gt_mask dem filled_dem\<close> is the boolean array
  \<open>dem > filled_dem\<close>.
\<close>

definition amin :: "real array2 \<Rightarrow> error + real" where
  "amin a =
     (case concat a of
        [] \<Rightarrow> Inl (ValueError ''zero-size array to reduction operation minimum which has no identity'')
      | x # xs \<Rightarrow> Inr (fold min xs x))"

definition maximum_scalar :: "real array2 \<Rightarrow> real \<Rightarrow> real array2" where
  "maximum_scalar a m = map (map (\<lambda>x. max x m)) a"

definition maximum :: "real array2 \<Rightarrow> real array2 \<Rightarrow> real array2" where
  "maximum a b = map2 (map2 max) a b"

definition gt_mask :: "real array2 \<Rightarrow> real array2 \<Rightarrow> bool array2" where
  "gt_mask a b = map2 (map2 (\<lambda>x y. x > y)) a b"

text \<open>
  \<open>label(dem > filled_dem)\<close> of scipy numbers the connected groups of true cells, each
  true cell in exactly one group, so \<open>num_features == 0\<close> says that no cell is true.
  The function reads nothing else of the labelling.
\<close>

definition no_features :: "bool array2 \<Rightarrow> bool" where
  "no_features labeled = list_all (list_all (\<lambda>b. \<not> b)) labeled"

text \<open>
  The loop \<open>while True\<close>, with \<open>dem\<close> and \<open>filled_dem\<close> as its state. A run that
  never leaves the loop has the value \<open>None\<close>.
\<close>

partial_function (option) fill_loop :: "real array2 \<Rightarrow> real array2 \<Rightarrow> (error + real array2) option" where
  "fill_loop dem filled_dem =
     (case amin filled_dem of
        Inl e \<Rightarrow> Some (Inl e)
      | Inr marker \<Rightarrow>
          let filled_dem' = maximum_scalar dem marker in
          if no_features (gt_mask dem filled_dem') then Some (Inr filled_dem')
          else fill_loop (maximum dem filled_dem') filled_dem')"

definition fill_depressions :: "real array2 \<Rightarrow> (error + real array2) option" where
  "fill_depressions dem = fill_loop dem dem"

subsection \<open>Topographic wetness index\<close>

text \<open>
  A floating-point result is a finite value, an infinity or NaN. The two zeros are not
  told apart: the logarithm of either is \<open>-inf\<close>, and the only divisor 0 the formula
  can meet is a sum of two floats that cancel, which is \<open>+0\<close>.
\<close>

datatype npfloat = Finite real | PosInf | NegInf | NaN

definition isfinite :: "npfloat \<Rightarrow> bool" where
  "isfinite x = (case x of Finite _ \<Rightarrow> True | _ \<Rightarrow> False)"

text \<open>
  An arithmetic operation computes the exact result and rounds it to the format of its
  result. A format is its rounding function and its overflow threshold: a result at or
  beyond the threshold becomes an infinity, every other one is rounded to a float of the
  format, a small one possibly to 0.
\<close>

record format =
  rnd :: "real \<Rightarrow> real"
  huge :: real

definition fl :: "format \<Rightarrow> real \<Rightarrow> npfloat" where
  "fl F x = (if huge F \<le> x then PosInf else if x \<le> - huge F then NegInf else Finite (rnd F x))"

text \<open>
  The formats and the library functions are those of numpy and richdem on the machine
  at hand, and are parameters: the format of the slope raster that richdem returns, in
  which \<open>np.tan(slope) + 0.01\<close> is computed; binary64, the format of the flow
  accumulation, of the quotient and of its logarithm; binary32, the format of
  \<open>astype(np.float32)\<close>; and the functions \<open>np.tan\<close> and \<open>np.log\<close> on finite
  floats, whose results are floats already. The cells of the two rasters are finite
  floats, given by their real values. The tangent of a finite float is finite, since no
  float is an odd multiple of \<open>\<pi> / 2\<close>.
\<close>

record floats =
  slope_format :: format
  float64 :: format
  float32 :: format
  tan_f :: "real \<Rightarrow> real"
  log_f :: "real \<Rightarrow> real"

definition np_tan :: "floats \<Rightarrow> real \<Rightarrow> npfloat" where
  "np_tan r s = Finite (tan_f r s)"

definition np_add :: "floats \<Rightarrow> npfloat \<Rightarrow> real \<Rightarrow> npfloat" where
  "np_add r x c =
     (case x of Finite u \<Rightarrow> fl (slope_format r) (u + c) | PosInf \<Rightarrow> PosInf | NegInf \<Rightarrow> NegInf | NaN \<Rightarrow> NaN)"

definition np_divide :: "floats \<Rightarrow> real \<Rightarrow> npfloat \<Rightarrow> npfloat" where
  "np_divide r a d =
     (case d of
        Finite u \<Rightarrow>
          if u \<noteq> 0 then fl (float64 r) (a / u)
          else if 0 < a then PosInf else if a < 0 then NegInf else NaN
      | PosInf \<Rightarrow> Finite 0
      | NegInf \<Rightarrow> Finite 0
      | NaN \<Rightarrow> NaN)"

definition np_log :: "floats \<Rightarrow> npfloat \<Rightarrow> npfloat" where
  "np_log r x =
     (case x of
        Finite u \<Rightarrow> if 0 < u then Finite (log_f r u) else if u = 0 then NegInf else NaN
      | PosInf \<Rightarrow> PosInf
      | NegInf \<Rightarrow> NaN
      | NaN \<Rightarrow> NaN)"

definition astype_float32 :: "floats \<Rightarrow> npfloat \<Rightarrow> npfloat" where
  "astype_float32 r x =
     (case x of Finite u \<Rightarrow> fl (float32 r) u | PosInf \<Rightarrow> PosInf | NegInf \<Rightarrow> NegInf | NaN \<Rightarrow> NaN)"

text \<open>
  One cell of \<open>np.log(accum_d8 / (np.tan(slope) + 0.01)).astype(np.float32)\<close>, where
  the constant \<open>0.01\<close> is rounded to the format of the slope raster, and the whole array
  for two rasters of one shape.
\<close>

definition twi_cell :: "floats \<Rightarrow> real \<Rightarrow> real \<Rightarrow> npfloat" where
  "twi_cell r a s =
     astype_float32 r (np_log r (np_divide r a (np_add r (np_tan r s) (rnd (slope_format r) (1 / 100)))))"

definition twi :: "floats \<Rightarrow> real array2 \<Rightarrow> real array2 \<Rightarrow> npfloat array2" where
  "twi r accum_d8 slope = map2 (map2 (twi_cell r)) accum_d8 slope"

text \<open>
  What the theorems ask of the floating-point arithmetic, far less than IEEE 754 and a
  usable mathematical library give. A format rounds 0 to 0, its overflow threshold is
  at least \<open>2 ^ 127\<close>, and from \<open>2 ^ -126\<close> up to the threshold a rounded value is off
  by a factor of at most 2 (binary32 and binary64 are off by a factor of at most
  \<open>1 + 2 ^ -24\<close> there). The overflow threshold of binary64 is at least \<open>2 ^ 1023\<close>.
  On \<open>[0, \<pi> / 2)\<close> the computed tangent is not negative and at most twice the
  tangent; the computed logarithm of a positive float is off by at most 1.
\<close>

definition accurate :: "format \<Rightarrow> bool" where
  "accurate F = (rnd F 0 = 0 \<and> 2 ^ 127 \<le> huge F
     \<and> (\<forall>x. 1 / 2 ^ 126 \<le> x \<and> x < huge F \<longrightarrow> x / 2 \<le> rnd F x \<and> rnd F x \<le> 2 * x))"

definition ieee :: "floats \<Rightarrow> bool" where
  "ieee r = (accurate (slope_format r) \<and> accurate (float64 r) \<and> 2 ^ 1023 \<le> huge (float64 r)
     \<and> 2 ^ 127 \<le> huge (float32 r)
     \<and> (\<forall>s. 0 \<le> s \<and> s < pi / 2 \<longrightarrow> 0 \<le> tan_f r s \<and> tan_f r s \<le> 2 * tan s)
     \<and> (\<forall>u. 0 < u \<longrightarrow> \<bar>log_f r u - ln u\<bar> \<le> 1))"

text \<open>
  Rounding to nearest never reverses an order. Of a library logarithm this is usual but
  not guaranteed; where the theorem on the order of two indices needs it, it says so.
\<close>

definition nondecreasing :: "(real \<Rightarrow> real) \<Rightarrow> bool" where
  "nondecreasing f = (\<forall>x y. x \<le> y \<longrightarrow> f x \<le> f y)"

definition monotone_floats :: "floats \<Rightarrow> bool" where
  "monotone_floats r = (nondecreasing (rnd (float64 r)) \<and> nondecreasing (rnd (float32 r))
     \<and> (\<forall>u v. 0 < u \<and> u \<le> v \<longrightarrow> log_f r u \<le> log_f r v))"

text \<open>
  An arithmetic that meets these bounds: no rounding error below the overflow threshold
  \<open>2 ^ 1024\<close>, and the tangent and the logarithm themselves.
\<close>

definition exact_format :: format where
  "exact_format = \<lparr>rnd = (\<lambda>x. x), huge = 2 ^ 1024\<rparr>"

definition exact_floats :: floats where
  "exact_floats = \<lparr>slope_format = exact_format, float64 = exact_format, float32 = exact_format,
     tan_f = tan, log_f = ln\<rparr>"

subsection \<open>Depth to water: \<open>calcDTW\<close>\<close>

text \<open>
  The product of two arrays follows numpy's broadcasting: two axes fit when their
  lengths agree or one of them is 1, and an axis of length 1 is repeated.
\<close>

definition stretch :: "nat \<Rightarrow> 'a list \<Rightarrow> 'a list" where
  "stretch n xs = (if length xs = 1 then replicate n (hd xs) else xs)"

definition broadcast_to :: "nat \<times> nat \<Rightarrow> 'a array2 \<Rightarrow> 'a array2" where
  "broadcast_to sh a = stretch (fst sh) (map (stretch (snd sh)) a)"

definition broadcast_dim :: "nat \<Rightarrow> nat \<Rightarrow> nat option" where
  "broadcast_dim m n = (if m = n \<or> n = 1 then Some m else if m = 1 then Some n else None)"

definition multiply :: "real array2 \<Rightarrow> real array2 \<Rightarrow> error + real array2" where
  "multiply a b =
     (case (broadcast_dim (length a) (length b), broadcast_dim (width a) (width b)) of
        (Some h, Some w) \<Rightarrow>
          Inr (map2 (map2 (*)) (broadcast_to (h, w) a) (broadcast_to (h, w) b))
      | _ \<Rightarrow> Inl (ValueError ''operands could not be broadcast together''))"

text \<open>
  The global \<open>resolution = (-30, 30)\<close>; the threshold \<open>t\<close> of the flow accumulation;
  the channels \<open>flow_lines = accum_d8 >= t\<close>; and \<open>~flow_lines\<close>.
\<close>

definition resolution :: "real \<times> real" where
  "resolution = (-30, 30)"

definition threshold :: "real \<Rightarrow> real" where
  "threshold fia = fia * 10000 / (\<bar>fst resolution\<bar> * \<bar>snd resolution\<bar>)"

definition flow_lines_of :: "real \<Rightarrow> real array2 \<Rightarrow> bool array2" where
  "flow_lines_of t accum_d8 = map (map (\<lambda>a. a \<ge> t)) accum_d8"

definition invert :: "bool array2 \<Rightarrow> bool array2" where
  "invert m = map (map (\<lambda>b. \<not> b)) m"

text \<open>
  \<open>distance_transform_edt(input)\<close> of scipy gives every cell its Euclidean distance, in
  cells, to the nearest cell where the input is zero (the background). What scipy
  returns for an input without a background cell is not documented; it is the parameter
  \<open>no_background\<close>, a value for the input and the cell.
\<close>

definition background :: "bool array2 \<Rightarrow> (nat \<times> nat) list" where
  "background inp =
     concat (map (\<lambda>k. concat (map (\<lambda>l. if inp ! k ! l then [] else [(k, l)])
       [0..<length (inp ! k)])) [0..<length inp])"

definition sqdist :: "nat \<times> nat \<Rightarrow> nat \<times> nat \<Rightarrow> int" where
  "sqdist p q = (int (fst p) - int (fst q))\<^sup>2 + (int (snd p) - int (snd q))\<^sup>2"

definition distance_transform_edt :: "(bool array2 \<Rightarrow> nat \<Rightarrow> nat \<Rightarrow> real) \<Rightarrow> bool array2 \<Rightarrow> real array2" where
  "distance_transform_edt no_background inp =
     map (\<lambda>i. map (\<lambda>j.
       case background inp of
         [] \<Rightarrow> no_background inp i j
       | q # qs \<Rightarrow> sqrt (real_of_int (fold min (map (sqdist (i, j)) qs) (sqdist (i, j) q))))
       [0..<length (inp ! i)]) [0..<length inp]"

text \<open>
  \<open>calcDTW(fia, filled_dem, slope)\<close>. \<open>rd.FlowAccumulation(..., method='D8')\<close> of
  richdem is the parameter \<open>FlowAccumulation\<close>.
\<close>

definition calcDTW ::
  "(real array2 \<Rightarrow> real array2) \<Rightarrow> (bool array2 \<Rightarrow> nat \<Rightarrow> nat \<Rightarrow> real) \<Rightarrow>
   real \<Rightarrow> real array2 \<Rightarrow> real array2 \<Rightarrow> error + real array2" where
  "calcDTW FlowAccumulation no_background fia filled_dem slope =
     (let t = threshold fia;
          accum_d8 = FlowAccumulation filled_dem;
          flow_lines = flow_lines_of t accum_d8;
          cost_distance = distance_transform_edt no_background (invert flow_lines);
          DTW = multiply cost_distance (map (map (\<lambda>s. s / 100)) slope)
      in DTW)"

subsection \<open>Neighbourhood kernels: \<open>create_kernel\<close>\<close>

text \<open>
  The contiguity method is a string in the source; the five methods that
  \<open>create_kernel\<close> names are the constructors of \<open>contiguity\<close> (any other string
  leaves the kernel all zero, and is outside this model).
\<close>

datatype contiguity = Queen | Rook | Bishop | Circle | Annulus

text \<open>
  \<open>kernel_of ny nx f\<close> is the array of shape \<open>(ny, nx)\<close> that starts as
  \<open>np.zeros((ky, kx))\<close> and holds 1 where \<open>f row column\<close>.
\<close>

definition kernel_of :: "nat \<Rightarrow> nat \<Rightarrow> (nat \<Rightarrow> nat \<Rightarrow> bool) \<Rightarrow> real array2" where
  "kernel_of ny nx f = map (\<lambda>a. map (\<lambda>b. if f a b then 1 else 0) [0..<nx]) [0..<ny]"

text \<open>
  The masks of the circle and the annulus, on the open grid
  \<open>y, x = np.ogrid[-jy:jy+1, -jx:jx+1]\<close>: row \<open>a\<close> has \<open>y = a - jy\<close>, column
  \<open>b\<close> has \<open>x = b - jx\<close>.
\<close>

definition outer_mask :: "int \<Rightarrow> int \<Rightarrow> int \<Rightarrow> nat \<Rightarrow> nat \<Rightarrow> bool" where
  "outer_mask kx jy jx a b = ((int b - jx)\<^sup>2 + (int a - jy)\<^sup>2 \<le> (kx div 2)\<^sup>2)"

definition inner_mask :: "int \<Rightarrow> int \<Rightarrow> int \<Rightarrow> nat \<Rightarrow> nat \<Rightarrow> bool" where
  "inner_mask kx jy jx a b = ((int b - jx)\<^sup>2 + (int a - jy)\<^sup>2 < (kx div 2 - 1)\<^sup>2)"

text \<open>
  \<open>create_kernel(w, method)\<close>. The errors are numpy's: a negative dimension in
  \<open>np.zeros\<close>; an index into an axis of size 0 (\<open>kernel[jy, :]\<close>,
  \<open>kernel[:, jx]\<close>); a boolean mask of shape \<open>(2 * jy + 1, 2 * jx + 1)\<close> that does
  not match the kernel's shape \<open>(ky, kx)\<close>, which happens when a dimension is even.
  \<open>np.fill_diagonal\<close> sets the entries \<open>(i, i)\<close>; on the view
  \<open>np.fliplr(kernel)\<close> these are the entries \<open>(i, kx - 1 - i)\<close> of the kernel.
\<close>

definition create_kernel :: "int \<times> int \<Rightarrow> contiguity \<Rightarrow> error + real array2" where
  "create_kernel w method =
     (let kx = fst w; ky = snd w in
      if kx < 0 \<or> ky < 0 then Inl (ValueError ''negative dimensions are not allowed'')
      else
        let jy = ky div 2; jx = kx div 2; ny = nat ky; nx = nat kx in
        case method of
          Queen \<Rightarrow> Inr (kernel_of ny nx (\<lambda>a b. True))
        | Rook \<Rightarrow>
            if ky = 0 \<or> kx = 0 then Inl (IndexError ''index 0 is out of bounds for axis with size 0'')
            else Inr (kernel_of ny nx (\<lambda>a b. int a = jy \<or> int b = jx))
        | Bishop \<Rightarrow> Inr (kernel_of ny nx (\<lambda>a b. a = b \<or> int a + int b = kx - 1))
        | Circle \<Rightarrow>
            if even ky \<or> even kx
            then Inl (IndexError ''boolean index did not match indexed array'')
            else Inr (kernel_of ny nx (outer_mask kx jy jx))
        | Annulus \<Rightarrow>
            if even ky \<or> even kx
            then Inl (IndexError ''boolean index did not match indexed array'')
            else Inr (kernel_of ny nx (\<lambda>a b. outer_mask kx jy jx a b \<and> \<not> inner_mask kx jy jx a b)))"

text \<open>\<open>kernel.sum()\<close>.\<close>

definition array_sum :: "real array2 \<Rightarrow> real" where
  "array_sum k = sum_list (concat k)"

subsection \<open>The multi-scale terrain indices: \<open>terrain_indices\<close>\<close>

text \<open>
  A cell of a floating-point raster is \<open>Some x\<close> for a finite value \<open>x\<close> and
  \<open>None\<close> for NaN, which every arithmetic operation propagates: a product with a
  NaN factor and a sum with a NaN term are NaN, whatever the rounding. The finite values
  are real numbers with exact arithmetic, where the code rounds each operation to a
  float. The theorems on \<open>terrain_indices\<close> therefore speak only of the errors raised,
  of the shape of the result and of the cells that are NaN, never of the value of a
  finite cell.
\<close>

definition nan_add :: "real option \<Rightarrow> real option \<Rightarrow> real option" where
  "nan_add x y = (case x of None \<Rightarrow> None | Some u \<Rightarrow> (case y of None \<Rightarrow> None | Some v \<Rightarrow> Some (u + v)))"

definition nan_sub :: "real option \<Rightarrow> real option \<Rightarrow> real option" where
  "nan_sub x y = (case x of None \<Rightarrow> None | Some u \<Rightarrow> (case y of None \<Rightarrow> None | Some v \<Rightarrow> Some (u - v)))"

definition nan_scale :: "real \<Rightarrow> real option \<Rightarrow> real option" where
  "nan_scale w x = (case x of None \<Rightarrow> None | Some u \<Rightarrow> Some (w * u))"

definition nan_sum :: "real option list \<Rightarrow> real option" where
  "nan_sum xs = foldl nan_add (Some 0) xs"

text \<open>
  Reading the input of \<open>ndimage.convolve(arr, kernel, mode='constant', cval=np.nan)\<close>:
  a position outside the array reads the constant NaN.
\<close>

definition pad_at :: "real option array2 \<Rightarrow> int \<Rightarrow> int \<Rightarrow> real option" where
  "pad_at arr i j =
     (if 0 \<le> i \<and> i < int (length arr) \<and> 0 \<le> j \<and> j < int (length (arr ! nat i))
      then arr ! nat i ! nat j else None)"

text \<open>
  \<open>ndimage.convolve\<close>: the output at \<open>(i, j)\<close> is the sum over the kernel's entries
  \<open>(a, b)\<close> of \<open>weights[a, b] * input[i + ky // 2 - a, j + kx // 2 - b]\<close>; scipy
  visits only the entries whose weight is not zero.
\<close>

definition conv_terms :: "real option array2 \<Rightarrow> real array2 \<Rightarrow> nat \<Rightarrow> nat \<Rightarrow> real option list" where
  "conv_terms arr weights i j =
     concat (map (\<lambda>a. concat (map (\<lambda>b.
       if weights ! a ! b = 0 then []
       else [nan_scale (weights ! a ! b)
               (pad_at arr (int i + int (length weights div 2) - int a)
                           (int j + int (width weights div 2) - int b))])
       [0..<width weights])) [0..<length weights])"

definition convolve :: "real option array2 \<Rightarrow> real array2 \<Rightarrow> real option array2" where
  "convolve arr weights =
     map (\<lambda>i. map (\<lambda>j. nan_sum (conv_terms arr weights i j)) [0..<length (arr ! i)]) [0..<length arr]"

text \<open>
  The local function \<open>focal_mean(arr, kernel)\<close>: the kernel (\<open>kern\<close> here) is divided
  by its sum, then convolved. Every kernel that \<open>terrain_indices\<close> passes holds an
  entry 1, so its sum is positive and the weight of such an entry is not zero.
\<close>

definition focal_mean :: "real option array2 \<Rightarrow> real array2 \<Rightarrow> real option array2" where
  "focal_mean arr kern = convolve arr (map (map (\<lambda>k. k / array_sum kern)) kern)"

definition subtract :: "real option array2 \<Rightarrow> real option array2 \<Rightarrow> real option array2" where
  "subtract a b = map2 (map2 nan_sub) a b"

text \<open>
  \<open>terrain_indices(filled_dem, w, unit, method)\<close>, as far as its entry \<open>'TPI'\<close>: the
  two checks of the window, the kernel, the smoothed elevation, \<open>np.gradient\<close> (which
  raises on an array with fewer than two rows or columns; its values feed the slope and
  curvature entries only, which are not modelled and raise nothing), and the position
  index. The parameter \<open>unit\<close> scales slope and aspect only and is left out.
\<close>

definition terrain_indices :: "real option array2 \<Rightarrow> int \<times> int \<Rightarrow> contiguity \<Rightarrow> error + real option array2" where
  "terrain_indices filled_dem w method =
     (if min (fst w) (snd w) < 3 then Inl (ValueError ''Window size must be at least 3x3'')
      else if fst w mod 2 = 0 \<or> snd w mod 2 = 0 then Inl (ValueError ''Window size must be odd'')
      else
        case create_kernel w method of
          Inl e \<Rightarrow> Inl e
        | Inr kern \<Rightarrow>
            let smoothed_dem = focal_mean filled_dem kern in
            if length smoothed_dem < 2 \<or> width smoothed_dem < 2
            then Inl (ValueError ''Shape of array too small to calculate a numerical gradient'')
            else
              let focal_mean_tpi = focal_mean smoothed_dem kern;
                  tpi_k = subtract smoothed_dem focal_mean_tpi
              in Inr tpi_k)"

subsection \<open>The properties the claims speak of\<close>

text \<open>
  A cell drains when a path of adjacent cells (the eight neighbours), along which the
  elevation never rises, leads from it to a cell on the boundary of the grid. A raster
  is sink-free when every interior cell drains.
\<close>

definition elev :: "real array2 \<Rightarrow> nat \<times> nat \<Rightarrow> real" where
  "elev r p = r ! fst p ! snd p"

definition on_boundary :: "'a array2 \<Rightarrow> nat \<times> nat \<Rightarrow> bool" where
  "on_boundary r p =
     (in_grid r p \<and> (fst p = 0 \<or> Suc (fst p) = length r \<or> snd p = 0 \<or> Suc (snd p) = length (r ! fst p)))"

definition adjacent :: "nat \<times> nat \<Rightarrow> nat \<times> nat \<Rightarrow> bool" where
  "adjacent p q =
     (p \<noteq> q \<and> fst p \<le> Suc (fst q) \<and> fst q \<le> Suc (fst p) \<and> snd p \<le> Suc (snd q) \<and> snd q \<le> Suc (snd p))"

inductive drains :: "real array2 \<Rightarrow> nat \<times> nat \<Rightarrow> bool" for r where
  boundary: "on_boundary r p \<Longrightarrow> drains r p"
| step: "in_grid r p \<Longrightarrow> in_grid r q \<Longrightarrow> adjacent p q \<Longrightarrow> elev r q \<le> elev r p \<Longrightarrow> drains r q \<Longrightarrow> drains r p"

definition sink_free :: "real array2 \<Rightarrow> bool" where
  "sink_free r = (\<forall>p. in_grid r p \<and> \<not> on_boundary r p \<longrightarrow> drains r p)"

text \<open>
  The channel cells of a flow accumulation, the Euclidean distance between two cells, and
  the distance from a cell to its nearest channel cell.
\<close>

definition channel_cells :: "real \<Rightarrow> real array2 \<Rightarrow> (nat \<times> nat) set" where
  "channel_cells t accum_d8 = {q. in_grid accum_d8 q \<and> accum_d8 ! fst q ! snd q \<ge> t}"

definition euclidean :: "nat \<times> nat \<Rightarrow> nat \<times> nat \<Rightarrow> real" where
  "euclidean p q = sqrt ((real (fst p) - real (fst q))\<^sup>2 + (real (snd p) - real (snd q))\<^sup>2)"

definition nearest_channel :: "real \<Rightarrow> real array2 \<Rightarrow> nat \<times> nat \<Rightarrow> real" where
  "nearest_channel t accum_d8 p = Min (euclidean p ` channel_cells t accum_d8)"




text \<open>
  A 3 by 3 raster with a pit in the middle: every neighbour of the centre is higher.
\<close>

definition pit :: "real array2" where
  "pit = [[1, 1, 1], [1, 0, 1], [1, 1, 1]]"

section \<open>Depression filling\<close>

lemma amin_nonempty:
  assumes "concat dem \<noteq> []"
  shows "amin dem = Inr (Min (set (concat dem)))"
proof -
  obtain x xs where c: "concat dem = x # xs" using assms by (cases "concat dem") auto
  show ?thesis unfolding amin_def c by (simp only: list.case Min.set_eq_fold)
qed

lemma maximum_scalar_Min: "maximum_scalar dem (Min (set (concat dem))) = dem"
proof -
  have "\<And>row x. row \<in> set dem \<Longrightarrow> x \<in> set row \<Longrightarrow> max x (Min (set (concat dem))) = x"
  proof -
    fix row x assume "row \<in> set dem" "x \<in> set row"
    then have "x \<in> set (concat dem)" by auto
    then have "Min (set (concat dem)) \<le> x" by (intro Min_le) auto
    then show "max x (Min (set (concat dem))) = x" by simp
  qed
  then show ?thesis unfolding maximum_scalar_def by (intro map_idI) auto
qed

lemma no_features_gt_mask_self: "no_features (gt_mask dem dem)"
  unfolding no_features_def gt_mask_def
  by (auto simp: list_all_iff set_zip)

lemma fill_depressions_nonempty:
  assumes "concat dem \<noteq> []"
  shows "fill_depressions dem = Some (Inr dem)"
  unfolding fill_depressions_def
  by (subst fill_loop.simps)
     (simp only: amin_nonempty [OF assms] sum.case Let_def maximum_scalar_Min
        no_features_gt_mask_self if_True)

lemma fill_depressions_empty:
  assumes "concat dem = []"
  shows "\<exists>e. fill_depressions dem = Some (Inl e)"
  unfolding fill_depressions_def
  by (subst fill_loop.simps) (simp add: amin_def assms)

text \<open>
  Claim C2. For a raster with at least one cell, the marker is the global minimum, the
  mask \<open>dem > filled_dem\<close> of the first iteration has no true cell, so the loop is left
  in its first iteration, and the result \<open>np.maximum(dem, marker)\<close> is the input.
\<close>

theorem fill_depressions_first_iteration:
  assumes "concat dem \<noteq> []"
  shows "amin dem = Inr (Min (set (concat dem)))
     \<and> no_features (gt_mask dem (maximum_scalar dem (Min (set (concat dem)))))
     \<and> fill_depressions dem = Some (Inr (maximum_scalar dem (Min (set (concat dem)))))
     \<and> maximum_scalar dem (Min (set (concat dem))) = dem"
  using assms
  by (simp only: amin_nonempty maximum_scalar_Min no_features_gt_mask_self
      fill_depressions_nonempty simp_thms)

theorem fill_depressions_first_iteration_witness:
  "concat [[3, 1], [2, 5 :: real]] \<noteq> []
   \<and> amin [[3, 1], [2, 5]] = Inr 1
   \<and> fill_depressions [[3, 1], [2, 5]] = Some (Inr [[3, 1], [2, 5]])"
  using fill_depressions_first_iteration [of "[[3, 1], [2, 5]]"]
  by (simp add: maximum_scalar_def)

text \<open>
  Claim C3. The filler returns a raster for every input with at least one cell, and a
  raster it returns is nowhere below the input.
\<close>

theorem fill_depressions_never_lowers:
  "(concat dem \<noteq> [] \<longrightarrow> (\<exists>out. fill_depressions dem = Some (Inr out)))
   \<and> (\<forall>out. fill_depressions dem = Some (Inr out) \<longrightarrow> list_all2 (list_all2 (\<le>)) dem out)"
proof (intro conjI impI allI)
  assume "concat dem \<noteq> []"
  then show "\<exists>out. fill_depressions dem = Some (Inr out)"
    using fill_depressions_nonempty by blast
next
  fix out assume r: "fill_depressions dem = Some (Inr out)"
  have "concat dem \<noteq> []"
  proof
    assume "concat dem = []"
    then obtain e where "fill_depressions dem = Some (Inl e)" using fill_depressions_empty by blast
    with r show False by simp
  qed
  then have "out = dem" using r fill_depressions_nonempty by simp
  then show "list_all2 (list_all2 (\<le>)) dem out"
    by (simp add: list_all2_refl)
qed

theorem fill_depressions_never_lowers_witness:
  "concat [[2, 0, 2 :: real]] \<noteq> []
   \<and> (\<exists>out. fill_depressions [[2, 0, 2]] = Some (Inr out) \<and> list_all2 (list_all2 (\<le>)) [[2, 0, 2]] out)"
  using fill_depressions_never_lowers [of "[[2, 0, 2]]"] by auto

lemma pit_in_grid: "in_grid pit (i, j) \<longleftrightarrow> i < 3 \<and> j < 3"
  by (auto simp: in_grid_def pit_def nth_Cons' eval_nat_numeral less_Suc_eq)

lemma pit_rim: "i < 3 \<Longrightarrow> j < 3 \<Longrightarrow> (i, j) \<noteq> (1, 1) \<Longrightarrow> elev pit (i, j) = 1"
  by (auto simp: elev_def pit_def nth_Cons' eval_nat_numeral less_Suc_eq)

lemma pit_centre_stuck: "\<not> drains pit (1, 1)"
proof
  assume "drains pit (1, 1)"
  then show False
  proof (cases rule: drains.cases)
    case boundary
    then show False by (simp add: on_boundary_def pit_def)
  next
    case (step q)
    obtain i j where q: "q = (i, j)" by (cases q)
    from step q have "i < 3" "j < 3" by (simp_all add: pit_in_grid)
    moreover from step q have "(i, j) \<noteq> (1, 1)" by (auto simp: adjacent_def)
    ultimately have "elev pit (i, j) = 1" by (rule pit_rim)
    moreover have "elev pit (1, 1) = 0" by (simp add: elev_def pit_def)
    ultimately show False using step q by simp
  qed
qed

text \<open>
  Claim C1 fails on the code. The filler returns the raster \<open>pit\<close> as it is, and the
  interior cell \<open>(1, 1)\<close> of the result does not drain: the result is not sink-free.
\<close>

theorem fill_depressions_keeps_pit:
  "fill_depressions pit = Some (Inr pit)
   \<and> in_grid pit (1, 1) \<and> \<not> on_boundary pit (1, 1) \<and> \<not> drains pit (1, 1)"
proof -
  have "concat pit \<noteq> []" by (simp add: pit_def)
  then have "fill_depressions pit = Some (Inr pit)" by (rule fill_depressions_nonempty)
  moreover have "in_grid pit (1, 1)" by (simp add: pit_in_grid)
  moreover have "\<not> on_boundary pit (1, 1)" by (simp add: on_boundary_def pit_def)
  ultimately show ?thesis using pit_centre_stuck by simp
qed

lemma pit_not_sink_free: "\<not> sink_free pit"
proof
  assume "sink_free pit"
  moreover have "in_grid pit (1, 1)" by (simp add: pit_in_grid)
  moreover have "\<not> on_boundary pit (1, 1)" by (simp add: on_boundary_def pit_def)
  ultimately have "drains pit (1, 1)" unfolding sink_free_def by blast
  then show False using pit_centre_stuck by simp
qed

section \<open>Topographic wetness index\<close>

lemma twi_nth:
  assumes a: "raster_on sh accum_d8" and s: "raster_on sh slope" and g: "in_grid accum_d8 (i, j)"
  shows "twi r accum_d8 slope ! i ! j = twi_cell r (accum_d8 ! i ! j) (slope ! i ! j)"
proof -
  have i: "i < length accum_d8" "j < length (accum_d8 ! i)" using g by (simp_all add: in_grid_def)
  have l: "length slope = length accum_d8" using a s by (simp add: raster_on_def)
  have "length (accum_d8 ! i) = snd sh" "length (slope ! i) = snd sh"
    using a s i l by (simp_all add: raster_on_def list_all_length)
  then show ?thesis using i l by (simp add: twi_def)
qed

lemma accurateD:
  assumes "accurate F" "1 / 2 ^ 126 \<le> x" "x < 2 ^ 127"
  shows "fl F x = Finite (rnd F x)" "x / 2 \<le> rnd F x" "rnd F x \<le> 2 * x"
proof -
  have h: "2 ^ 127 \<le> huge F" using assms(1) by (simp add: accurate_def)
  have p: "(0::real) < 1 / 2 ^ 126" by simp
  then have x: "0 < x" using assms(2) by linarith
  have lt: "x < huge F" using h assms(3) by linarith
  then have "\<not> huge F \<le> x" "\<not> x \<le> - huge F" using x by linarith+
  then show "fl F x = Finite (rnd F x)" by (simp only: fl_def if_False)
  have "1 / 2 ^ 126 \<le> x \<and> x < huge F" using assms(2) lt by simp
  then have "x / 2 \<le> rnd F x \<and> rnd F x \<le> 2 * x"
    using assms(1) unfolding accurate_def by blast
  then show "x / 2 \<le> rnd F x" "rnd F x \<le> 2 * x" by simp_all
qed

lemma twi_denominator:
  assumes i: "ieee r" and s: "0 \<le> s" "s < pi / 2" "tan s \<le> 2 ^ 54"
  shows "\<exists>d. np_add r (np_tan r s) (rnd (slope_format r) (1 / 100)) = Finite d
    \<and> 1 / 400 \<le> d \<and> d \<le> 2 ^ 57"
proof -
  let ?F = "slope_format r"
  define e where "e = rnd ?F (1 / 100)"
  define t where "t = tan_f r s"
  define x where "x = t + e"
  define y where "y = rnd ?F x"
  have acc: "accurate ?F" using i by (simp add: ieee_def)
  have "(1::real) / 2 ^ 126 \<le> 1 / 100" "(1::real) / 100 < 2 ^ 127" by simp_all
  with acc have "(1 / 100) / 2 \<le> rnd ?F (1 / 100)" "rnd ?F (1 / 100) \<le> 2 * (1 / 100)"
    by (rule accurateD(2), rule accurateD(3))
  then have e: "1 / 200 \<le> e" "e \<le> 1 / 50" by (simp_all add: e_def)
  have "0 \<le> tan_f r s \<and> tan_f r s \<le> 2 * tan s"
    using i s(1,2) unfolding ieee_def by blast
  then have t: "0 \<le> t" "t \<le> 2 ^ 55" using s(3) by (simp_all add: t_def)
  have lo: "1 / 200 \<le> x" using t(1) e(1) by (simp add: x_def)
  have hi: "x \<le> 2 ^ 55 + 1 / 50" using t(2) e(2) by (simp add: x_def)
  have "(1::real) / 2 ^ 126 \<le> 1 / 200" by simp
  then have x1: "1 / 2 ^ 126 \<le> x" using lo by linarith
  have "(2::real) ^ 55 + 1 / 50 < 2 ^ 127" by simp
  then have x2: "x < 2 ^ 127" using hi by linarith
  have f: "fl ?F x = Finite (rnd ?F x)" and b: "x / 2 \<le> rnd ?F x" "rnd ?F x \<le> 2 * x"
    using acc x1 x2 by (rule accurateD(1), rule accurateD(2), rule accurateD(3))
  have "np_add r (np_tan r s) (rnd ?F (1 / 100)) = Finite y"
    by (simp add: np_add_def np_tan_def f [unfolded x_def t_def e_def] y_def x_def t_def e_def)
  moreover have "1 / 400 \<le> y"
  proof -
    have "(1::real) / 400 = (1 / 200) / 2" by simp
    also have "\<dots> \<le> x / 2" using lo by (intro divide_right_mono) simp_all
    also have "\<dots> \<le> y" unfolding y_def by (rule b(1))
    finally show ?thesis .
  qed
  moreover have "y \<le> 2 ^ 57"
  proof -
    have "y \<le> 2 * x" unfolding y_def by (rule b(2))
    also have "\<dots> \<le> 2 * (2 ^ 55 + 1 / 50)" using hi by (intro mult_left_mono) simp_all
    also have "\<dots> \<le> 2 ^ 57" by simp
    finally show ?thesis .
  qed
  ultimately show ?thesis by blast
qed

lemma twi_cell_zero_accumulation:
  assumes i: "ieee r" and s: "0 \<le> s" "s < pi / 2" "tan s \<le> 2 ^ 54"
  shows "twi_cell r 0 s = NegInf"
proof -
  obtain d where d: "np_add r (np_tan r s) (rnd (slope_format r) (1 / 100)) = Finite d"
    and lo: "1 / 400 \<le> d"
    using twi_denominator [OF i s] by blast
  have nz: "d \<noteq> 0" using lo by auto
  have acc: "accurate (float64 r)" using i by (simp add: ieee_def)
  then have z: "rnd (float64 r) 0 = 0" and h: "2 ^ 127 \<le> huge (float64 r)"
    by (simp_all add: accurate_def)
  have "(0::real) < 2 ^ 127" by simp
  then have "0 < huge (float64 r)" using h by linarith
  then have "fl (float64 r) 0 = Finite 0" by (simp add: fl_def z)
  then have "np_divide r 0 (Finite d) = Finite 0" using nz by (simp add: np_divide_def)
  then show ?thesis by (simp add: twi_cell_def d np_log_def astype_float32_def)
qed

lemma ln_2_pow: "ln ((2::real) ^ n) = real n * ln 2"
  by (simp add: ln_realpow)

lemma ln_2_le_1: "ln (2::real) \<le> 1"
  using ln_2_less_1 by simp

lemma twi_cell_in_range:
  assumes i: "ieee r"
    and d: "np_add r (np_tan r s) (rnd (slope_format r) (1 / 100)) = Finite d"
          "1 / 400 \<le> d" "d \<le> 2 ^ 57"
    and a: "1 \<le> a" "a \<le> 2 ^ 1000"
  shows "0 < rnd (float64 r) (a / d)"
    and "twi_cell r a s = Finite (rnd (float32 r) (log_f r (rnd (float64 r) (a / d))))"
proof -
  let ?D = "float64 r"
  define q where "q = a / d"
  define u where "u = rnd ?D q"
  define l where "l = log_f r u"
  have dpos: "0 < d" using d(2) by linarith
  have acc: "accurate ?D" and h: "2 ^ 1023 \<le> huge ?D" and ho: "2 ^ 127 \<le> huge (float32 r)"
    and lg: "\<And>u. 0 < u \<Longrightarrow> \<bar>log_f r u - ln u\<bar> \<le> 1"
    using i by (simp_all add: ieee_def)
  have "1 / 2 ^ 57 \<le> 1 / d" using dpos d(3) by (simp add: frac_le)
  also have "1 / d \<le> a / d" using a(1) dpos by (simp add: divide_right_mono)
  finally have qlo: "1 / 2 ^ 57 \<le> q" by (simp only: q_def)
  have "a / d \<le> 2 ^ 1000 / d" using a(2) dpos by (simp add: divide_right_mono)
  also have "2 ^ 1000 / d \<le> 2 ^ 1000 / (1 / 400)" using d(2) by (intro divide_left_mono) simp_all
  finally have qhi: "q \<le> 400 * 2 ^ 1000" by (simp add: q_def)
  have "(1::real) / 2 ^ 126 \<le> 1 / 2 ^ 57" by (simp add: frac_le)
  then have q1: "1 / 2 ^ 126 \<le> q" using qlo by linarith
  have "400 * (2::real) ^ 1000 < 2 ^ 1023" by simp
  then have q2: "q < huge ?D" using qhi h by linarith
  have "(0::real) < 1 / 2 ^ 57" by simp
  then have qpos: "0 < q" using qlo by linarith
  then have "\<not> huge ?D \<le> q" "\<not> q \<le> - huge ?D" using q2 by linarith+
  then have f: "fl ?D q = Finite u" by (simp only: fl_def if_False u_def)
  have "1 / 2 ^ 126 \<le> q \<and> q < huge ?D" using q1 q2 by simp
  then have "q / 2 \<le> rnd ?D q \<and> rnd ?D q \<le> 2 * q"
    using acc unfolding accurate_def by blast
  then have b: "q / 2 \<le> u" "u \<le> 2 * q" by (simp_all add: u_def)
  have "(1::real) / 2 ^ 58 = (1 / 2 ^ 57) / 2" by simp
  also have "\<dots> \<le> q / 2" using qlo by (intro divide_right_mono) simp_all
  also have "\<dots> \<le> u" by (rule b(1))
  finally have ulo: "1 / 2 ^ 58 \<le> u" .
  have "(0::real) < 1 / 2 ^ 58" by simp
  with ulo have upos: "0 < u" by linarith
  then show "0 < rnd (float64 r) (a / d)" by (simp only: u_def q_def)
  have "u \<le> 2 * q" by (rule b(2))
  also have "\<dots> \<le> 2 * (400 * 2 ^ 1000)" using qhi by (intro mult_left_mono) simp_all
  also have "\<dots> \<le> 2 ^ 1010" by simp
  finally have uhi: "u \<le> 2 ^ 1010" .
  have "ln u \<le> ln (2 ^ 1010)" using upos uhi by (subst ln_le_cancel_iff) simp_all
  also have "\<dots> = 1010 * ln 2" by (simp only: ln_2_pow)
  also have "\<dots> \<le> 1010" using ln_2_le_1 by simp
  finally have lhi: "ln u \<le> 1010" .
  have "ln (1 / 2 ^ 58) \<le> ln u" using upos ulo by (subst ln_le_cancel_iff) simp_all
  moreover have "ln (1 / 2 ^ 58) = - (58 * ln (2::real))"
    by (simp only: ln_div zero_less_one zero_less_power zero_less_numeral ln_2_pow) simp
  moreover have "- (58 * ln (2::real)) \<ge> - 58" using ln_2_le_1 by simp
  ultimately have llo: "- 58 \<le> ln u" by linarith
  have "\<bar>log_f r u - ln u\<bar> \<le> 1" using upos by (rule lg)
  then have lb: "- 59 \<le> l" "l \<le> 1011" using lhi llo unfolding l_def by linarith+
  have "(1011::real) < 2 ^ 127" by simp
  then have "\<not> huge (float32 r) \<le> l" "\<not> l \<le> - huge (float32 r)"
    using lb ho by linarith+
  then have c: "fl (float32 r) l = Finite (rnd (float32 r) l)"
    by (simp only: fl_def if_False)
  have nz: "d \<noteq> 0" using dpos by simp
  have "np_divide r a (Finite d) = Finite u"
    using nz f by (simp add: np_divide_def q_def)
  then have "twi_cell r a s = Finite (rnd (float32 r) l)"
    using upos c by (simp add: twi_cell_def d(1) np_log_def astype_float32_def l_def)
  then show "twi_cell r a s = Finite (rnd (float32 r) (log_f r (rnd (float64 r) (a / d))))"
    by (simp only: l_def u_def q_def)
qed

lemma accurate_exact_format: "accurate exact_format"
proof -
  have "x / 2 \<le> x \<and> x \<le> 2 * x" if "1 / 2 ^ 126 \<le> x" for x :: real
  proof -
    have "(0::real) < 1 / 2 ^ 126" by simp
    with that have "0 < x" by linarith
    then show ?thesis by simp
  qed
  then show ?thesis by (simp add: accurate_def exact_format_def)
qed

lemma ieee_exact_floats: "ieee exact_floats"
proof -
  have "0 \<le> tan s \<and> tan s \<le> 2 * tan s" if "0 \<le> s" "s < pi / 2" for s :: real
  proof -
    have "0 \<le> tan s" using that by (intro tan_pos_pi2_le) simp_all
    then show ?thesis by simp
  qed
  moreover have "huge exact_format = 2 ^ 1024" by (simp add: exact_format_def)
  ultimately show ?thesis
    by (simp add: ieee_def exact_floats_def accurate_exact_format)
qed

lemma monotone_exact_floats: "monotone_floats exact_floats"
  by (simp add: monotone_floats_def exact_floats_def exact_format_def nondecreasing_def)

text \<open>
  Claim C9 fails as stated: a flow accumulation of 0 and a slope of 0 are finite and
  non-negative, and on no platform is the index finite there: \<open>0 / 0.01\<close> is 0 and
  its logarithm is \<open>-inf\<close>.
\<close>

theorem twi_not_finite_at_zero_accumulation:
  "\<not> (\<exists>r. ieee r \<and> isfinite (twi_cell r 0 0))"
proof
  assume "\<exists>r. ieee r \<and> isfinite (twi_cell r 0 0)"
  then obtain r where r: "ieee r" "isfinite (twi_cell r 0 0)" by blast
  have "twi_cell r 0 0 = NegInf" using r(1) by (rule twi_cell_zero_accumulation) simp_all
  with r(2) show False by (simp add: isfinite_def)
qed

text \<open>
  Claim C9, amended. Let the arithmetic meet the bounds of \<open>ieee\<close> and let the slope
  be an angle in \<open>[0, \<pi> / 2)\<close> whose tangent is at most \<open>2 ^ 54\<close>, as it is for every
  float below \<open>\<pi> / 2\<close>. Then the index is \<open>-inf\<close> at the flow accumulation 0, and it is
  finite at every flow accumulation from 1 to \<open>2 ^ 1000\<close>. For two flow accumulations
  \<open>a \<le> b\<close> in that range the index at \<open>a\<close> is at most the index at \<open>b\<close>, provided
  that the roundings and the library logarithm are monotone; the order need not be
  strict, since two quotients can round to one float.
\<close>

theorem twi_finite_nondecreasing:
  assumes i: "ieee r" and s: "0 \<le> s" "s < pi / 2" "tan s \<le> 2 ^ 54"
  shows "twi_cell r 0 s = NegInf
    \<and> (\<forall>a b. 1 \<le> a \<and> a \<le> b \<and> b \<le> 2 ^ 1000 \<longrightarrow>
          (\<exists>x y. twi_cell r a s = Finite x \<and> twi_cell r b s = Finite y
             \<and> (monotone_floats r \<longrightarrow> x \<le> y)))"
proof (intro conjI allI impI)
  show "twi_cell r 0 s = NegInf" using i s by (rule twi_cell_zero_accumulation)
next
  fix a b :: real
  assume ab: "1 \<le> a \<and> a \<le> b \<and> b \<le> 2 ^ 1000"
  obtain d where d: "np_add r (np_tan r s) (rnd (slope_format r) (1 / 100)) = Finite d"
      "1 / 400 \<le> d" "d \<le> 2 ^ 57"
    using twi_denominator [OF i s] by blast
  have a: "1 \<le> a" "a \<le> 2 ^ 1000" and b: "1 \<le> b" "b \<le> 2 ^ 1000" using ab by simp_all
  let ?u = "rnd (float64 r) (a / d)" and ?v = "rnd (float64 r) (b / d)"
  have ua: "0 < ?u" and ta: "twi_cell r a s = Finite (rnd (float32 r) (log_f r ?u))"
    using i d a by (rule twi_cell_in_range(1), rule twi_cell_in_range(2))
  have tb: "twi_cell r b s = Finite (rnd (float32 r) (log_f r ?v))"
    using i d b by (rule twi_cell_in_range(2))
  have "rnd (float32 r) (log_f r ?u) \<le> rnd (float32 r) (log_f r ?v)" if m: "monotone_floats r"
  proof -
    have "0 < d" using d(2) by linarith
    then have "a / d \<le> b / d" using ab by (simp add: divide_right_mono)
    then have "?u \<le> ?v" using m by (simp add: monotone_floats_def nondecreasing_def)
    with ua have "log_f r ?u \<le> log_f r ?v" using m unfolding monotone_floats_def by blast
    then show ?thesis using m by (simp add: monotone_floats_def nondecreasing_def)
  qed
  with ta tb show "\<exists>x y. twi_cell r a s = Finite x \<and> twi_cell r b s = Finite y
             \<and> (monotone_floats r \<longrightarrow> x \<le> y)"
    by blast
qed

theorem twi_finite_nondecreasing_witness:
  "ieee exact_floats \<and> (0::real) \<le> 0 \<and> (0::real) < pi / 2 \<and> tan (0::real) \<le> 2 ^ 54
   \<and> monotone_floats exact_floats
   \<and> twi_cell exact_floats 0 0 = NegInf
   \<and> (\<exists>x y. twi_cell exact_floats 1 0 = Finite x \<and> twi_cell exact_floats 2 0 = Finite y \<and> x \<le> y)"
proof -
  have s: "(0::real) \<le> 0" "(0::real) < pi / 2" "tan (0::real) \<le> 2 ^ 54" by simp_all
  have z: "twi_cell exact_floats 0 0 = NegInf"
    and f: "\<forall>a b. 1 \<le> a \<and> a \<le> b \<and> b \<le> 2 ^ 1000 \<longrightarrow>
          (\<exists>x y. twi_cell exact_floats a 0 = Finite x \<and> twi_cell exact_floats b 0 = Finite y
             \<and> (monotone_floats exact_floats \<longrightarrow> x \<le> y))"
    using twi_finite_nondecreasing [OF ieee_exact_floats s] by simp_all
  have "(1::real) \<le> 1 \<and> (1::real) \<le> 2 \<and> (2::real) \<le> 2 ^ 1000" by simp
  then have "\<exists>x y. twi_cell exact_floats 1 0 = Finite x \<and> twi_cell exact_floats 2 0 = Finite y
             \<and> (monotone_floats exact_floats \<longrightarrow> x \<le> y)"
    using f by blast
  then have "\<exists>x y. twi_cell exact_floats 1 0 = Finite x \<and> twi_cell exact_floats 2 0 = Finite y \<and> x \<le> y"
    using monotone_exact_floats by blast
  with z s ieee_exact_floats monotone_exact_floats show ?thesis by blast
qed

section \<open>Depth to water\<close>

lemma raster_on_nth: "raster_on sh a \<Longrightarrow> i < length a \<Longrightarrow> length (a ! i) = snd sh"
  by (simp add: raster_on_def list_all_length)

lemma raster_on_width: "raster_on sh a \<Longrightarrow> a \<noteq> [] \<Longrightarrow> width a = snd sh"
  by (cases a) (simp_all add: raster_on_def width_def)

lemma stretch_same: "length xs = n \<Longrightarrow> stretch n xs = xs"
  by (cases xs) (auto simp: stretch_def)

lemma broadcast_to_same:
  assumes "raster_on sh a"
  shows "broadcast_to sh a = a"
proof -
  have "map (stretch (snd sh)) a = a"
    using assms by (intro map_idI stretch_same) (simp add: raster_on_def list_all_iff)
  moreover have "length a = fst sh" using assms by (simp add: raster_on_def)
  ultimately show ?thesis by (simp add: broadcast_to_def stretch_same)
qed

lemma multiply_rasters:
  assumes a: "raster_on sh a" and b: "raster_on sh b"
  shows "multiply a b = Inr (map2 (map2 (*)) a b)"
proof (cases "a = []")
  case True
  with a b have "b = []" by (simp add: raster_on_def)
  with True show ?thesis
    by (simp add: multiply_def broadcast_dim_def width_def broadcast_to_def stretch_def)
next
  case False
  with a b have nb: "b \<noteq> []" by (auto simp: raster_on_def)
  have l: "length a = fst sh" "length b = fst sh" using a b by (simp_all add: raster_on_def)
  have w: "width a = snd sh" "width b = snd sh"
    using a b False nb by (simp_all add: raster_on_width)
  have "(fst sh, snd sh) = sh" by simp
  then show ?thesis
    unfolding multiply_def l w
    by (simp add: broadcast_dim_def broadcast_to_same [OF a] broadcast_to_same [OF b])
qed

lemma raster_on_map: "raster_on sh a \<Longrightarrow> raster_on sh (map (map f) a)"
  by (simp add: raster_on_def list_all_iff)

lemma raster_on_edt:
  "raster_on sh inp \<Longrightarrow> raster_on sh (distance_transform_edt nobg inp)"
  by (simp add: raster_on_def list_all_length distance_transform_edt_def)

lemma set_background:
  "set (background inp) = {q. in_grid inp q \<and> \<not> inp ! fst q ! snd q}"
  by (auto simp: background_def in_grid_def split: if_splits)

lemma channel_cells_background:
  "set (background (invert (flow_lines_of t accum))) = channel_cells t accum"
  by (auto simp: set_background channel_cells_def in_grid_def invert_def flow_lines_of_def)

lemma edt_nth:
  assumes "in_grid inp (i, j)"
  shows "distance_transform_edt nobg inp ! i ! j =
    (case background inp of [] \<Rightarrow> nobg inp i j
     | q # qs \<Rightarrow> sqrt (real_of_int (fold min (map (sqdist (i, j)) qs) (sqdist (i, j) q))))"
  using assms by (simp add: distance_transform_edt_def in_grid_def split: list.split)

lemma euclidean_sqdist: "euclidean p q = sqrt (real_of_int (sqdist p q))"
  by (simp add: euclidean_def sqdist_def)

lemma edt_nearest:
  assumes g: "in_grid inp (i, j)" and ne: "background inp \<noteq> []"
  shows "distance_transform_edt nobg inp ! i ! j = Min (euclidean (i, j) ` set (background inp))"
proof -
  obtain q qs where b: "background inp = q # qs" using ne by (cases "background inp") auto
  have m: "mono (\<lambda>d. sqrt (real_of_int d))" by (simp add: mono_def)
  have "fold min (map (sqdist (i, j)) qs) (sqdist (i, j) q) = Min (set (sqdist (i, j) q # map (sqdist (i, j)) qs))"
    by (rule Min.set_eq_fold [symmetric])
  also have "set (sqdist (i, j) q # map (sqdist (i, j)) qs) = sqdist (i, j) ` set (background inp)"
    by (simp add: b)
  finally have "distance_transform_edt nobg inp ! i ! j
      = sqrt (real_of_int (Min (sqdist (i, j) ` set (background inp))))"
    by (simp add: edt_nth [OF g] b)
  also have "\<dots> = Min ((\<lambda>d. sqrt (real_of_int d)) ` sqdist (i, j) ` set (background inp))"
    using ne by (intro mono_Min_commute [OF m]) auto
  also have "(\<lambda>d. sqrt (real_of_int d)) ` sqdist (i, j) ` set (background inp)
      = euclidean (i, j) ` set (background inp)"
    by (simp add: image_image euclidean_sqdist)
  finally show ?thesis .
qed

lemma euclidean_nonneg: "0 \<le> euclidean p q"
  by (simp add: euclidean_def)

lemma edt_zero_on_background:
  assumes g: "in_grid inp (i, j)" and z: "\<not> inp ! i ! j"
  shows "distance_transform_edt nobg inp ! i ! j = 0"
proof -
  have mem: "(i, j) \<in> set (background inp)" using g z by (simp add: set_background)
  then have ne: "background inp \<noteq> []" by auto
  have "euclidean (i, j) (i, j) = 0" by (simp add: euclidean_def)
  then have "0 \<in> euclidean (i, j) ` set (background inp)" using mem by force
  then have "Min (euclidean (i, j) ` set (background inp)) \<le> 0" by (intro Min_le) auto
  moreover have "0 \<le> Min (euclidean (i, j) ` set (background inp))"
    using ne by (subst Min_ge_iff) (auto simp: euclidean_nonneg)
  ultimately show ?thesis by (simp add: edt_nearest [OF g ne])
qed

lemma calcDTW_rasters:
  assumes a: "raster_on sh (FlowAccumulation filled_dem)" and s: "raster_on sh slope"
  shows "calcDTW FlowAccumulation nobg fia filled_dem slope =
    Inr (map2 (map2 (*))
      (distance_transform_edt nobg (invert (flow_lines_of (threshold fia) (FlowAccumulation filled_dem))))
      (map (map (\<lambda>s. s / 100)) slope))"
proof -
  have "raster_on sh (invert (flow_lines_of (threshold fia) (FlowAccumulation filled_dem)))"
    unfolding invert_def flow_lines_of_def using a by (intro raster_on_map)
  then have "raster_on sh (distance_transform_edt nobg (invert (flow_lines_of (threshold fia) (FlowAccumulation filled_dem))))"
    by (rule raster_on_edt)
  moreover have "raster_on sh (map (map (\<lambda>s. s / 100)) slope)" using s by (rule raster_on_map)
  ultimately show ?thesis
    unfolding calcDTW_def Let_def by (rule multiply_rasters)
qed

lemma in_grid_raster: "raster_on sh a \<Longrightarrow> in_grid a p \<longleftrightarrow> fst p < fst sh \<and> snd p < snd sh"
  by (auto simp: in_grid_def raster_on_def list_all_length)

lemma DTW_nth:
  assumes a: "raster_on sh accum" and s: "raster_on sh slope" and g: "in_grid accum (i, j)"
  shows "map2 (map2 (*)) (distance_transform_edt nobg (invert (flow_lines_of t accum)))
      (map (map (\<lambda>s. s / 100)) slope) ! i ! j
    = distance_transform_edt nobg (invert (flow_lines_of t accum)) ! i ! j * (slope ! i ! j / 100)"
proof -
  have i: "i < fst sh" "j < snd sh" using g a by (simp_all add: in_grid_raster)
  have la: "length accum = fst sh" "length slope = fst sh" using a s by (simp_all add: raster_on_def)
  have ra: "length (accum ! i) = snd sh" "length (slope ! i) = snd sh"
    using a s i la by (simp_all add: raster_on_nth)
  show ?thesis
    using i la ra by (simp add: distance_transform_edt_def invert_def flow_lines_of_def)
qed

lemma threshold_1: "threshold 1 = 100 / 9"
  by (simp add: threshold_def resolution_def)

lemma channel_cells_row3: "channel_cells (threshold 1) [[1, 20, 1]] = {(0, 1)}"
  by (auto simp: channel_cells_def in_grid_def threshold_1 nth_Cons' less_Suc_eq eval_nat_numeral
      split: if_splits)

lemma nearest_row3:
  "nearest_channel (threshold 1) [[1, 20, 1]] (0, 1) = 0"
  "nearest_channel (threshold 1) [[1, 20, 1]] (0, 0) = 1"
  by (simp_all add: nearest_channel_def channel_cells_row3 euclidean_def)

text \<open>
  Claim C4 fails on the code: \<open>calcDTW\<close> does not look at the channel mask. With a
  flow accumulation of 1 in the only cell, below the threshold \<open>100 / 9\<close>, it returns
  a raster and raises nothing.
\<close>

theorem calcDTW_empty_mask_returns:
  "channel_cells (threshold 1) [[1]] = {}
   \<and> (\<forall>no_background. calcDTW (\<lambda>_. [[1]]) no_background 1 [[0]] [[5]]
        = Inr [[no_background [[True]] 0 0 * (5 / 100)]])"
proof -
  have "channel_cells (threshold 1) [[1]] = {}"
    by (auto simp: channel_cells_def in_grid_def threshold_1)
  moreover have "calcDTW (\<lambda>_. [[1]]) no_background 1 [[0]] [[5]]
        = Inr [[no_background [[True]] 0 0 * (5 / 100)]]" for no_background
    by (simp add: calcDTW_def threshold_1 flow_lines_of_def invert_def
      distance_transform_edt_def background_def multiply_def broadcast_dim_def width_def
      broadcast_to_def stretch_def)
  ultimately show ?thesis by blast
qed

text \<open>
  Claim C4, amended. For rasters of one shape and no cell at or above the threshold,
  \<open>calcDTW\<close> raises no error: it returns a raster of that shape, and each cell holds
  \<open>slope / 100\<close> times the value the distance transform gives for an input without a
  background cell.
\<close>

theorem calcDTW_without_channels:
  assumes a: "raster_on sh (FlowAccumulation filled_dem)" and s: "raster_on sh slope"
    and e: "channel_cells (threshold fia) (FlowAccumulation filled_dem) = {}"
  shows "\<exists>DTW. calcDTW FlowAccumulation no_background fia filled_dem slope = Inr DTW
    \<and> raster_on sh DTW
    \<and> (\<forall>p. in_grid DTW p \<longrightarrow>
         DTW ! fst p ! snd p =
           no_background (invert (flow_lines_of (threshold fia) (FlowAccumulation filled_dem))) (fst p) (snd p)
             * (slope ! fst p ! snd p / 100))"
proof -
  define accum where "accum = FlowAccumulation filled_dem"
  define inp where "inp = invert (flow_lines_of (threshold fia) accum)"
  define DTW where "DTW = map2 (map2 (*)) (distance_transform_edt no_background inp)
    (map (map (\<lambda>s. s / 100)) slope)"
  have a': "raster_on sh accum" using a by (simp add: accum_def)
  have ri: "raster_on sh inp"
    unfolding inp_def invert_def flow_lines_of_def using a' by (intro raster_on_map)
  have bg: "background inp = []"
    using channel_cells_background [of "threshold fia" accum] e by (simp add: inp_def accum_def)
  have res: "calcDTW FlowAccumulation no_background fia filled_dem slope = Inr DTW"
    using calcDTW_rasters [of sh FlowAccumulation filled_dem slope no_background fia] a s
    by (simp add: DTW_def inp_def accum_def)
  have rd: "raster_on sh DTW"
    using a' s by (simp add: DTW_def distance_transform_edt_def inp_def invert_def
        flow_lines_of_def raster_on_def list_all_length)
  have "DTW ! fst p ! snd p = no_background inp (fst p) (snd p) * (slope ! fst p ! snd p / 100)"
    if g: "in_grid DTW p" for p
  proof -
    have ga: "in_grid accum (fst p, snd p)" using g rd a' by (simp add: in_grid_raster)
    then have gi: "in_grid inp (fst p, snd p)" using ri a' by (simp add: in_grid_raster)
    have "distance_transform_edt no_background inp ! fst p ! snd p = no_background inp (fst p) (snd p)"
      using edt_nth [OF gi, of no_background] by (simp add: bg)
    then show ?thesis using DTW_nth [OF a' s ga, of no_background "threshold fia"]
      by (simp add: DTW_def inp_def)
  qed
  then show ?thesis using res rd unfolding inp_def accum_def by blast
qed

theorem calcDTW_without_channels_witness:
  "raster_on (1, 2) [[1, 2 :: real]] \<and> raster_on (1, 2) [[5, 10 :: real]]
   \<and> channel_cells (threshold 1) [[1, 2]] = {}
   \<and> (\<exists>DTW. calcDTW (\<lambda>_. [[1, 2]]) (\<lambda>_ _ _. 7) 1 [[4, 3]] [[5, 10]] = Inr DTW
         \<and> DTW ! 0 ! 1 = 7 * (10 / 100))"
proof -
  have r: "raster_on (1, 2) [[1, 2 :: real]]" "raster_on (1, 2) [[5, 10 :: real]]"
    by (simp_all add: raster_on_def)
  have e: "channel_cells (threshold 1) [[1, 2]] = {}"
    by (auto simp: channel_cells_def in_grid_def threshold_1 nth_Cons' less_Suc_eq split: if_splits)
  obtain DTW where d: "calcDTW (\<lambda>_. [[1, 2]]) (\<lambda>_ _ _. 7) 1 [[4, 3]] [[5, 10]] = Inr DTW"
    and rd: "raster_on (1, 2) DTW"
    and c: "\<forall>p. in_grid DTW p \<longrightarrow> DTW ! fst p ! snd p = 7 * ([[5, 10]] ! fst p ! snd p / 100)"
    using calcDTW_without_channels [of "(1, 2)" "\<lambda>_. [[1, 2]]" "[[4, 3]]" "[[5, 10]]" 1 "\<lambda>_ _ _. 7"] r e
    by blast
  have "in_grid DTW (0, 1)" using rd by (simp add: in_grid_raster)
  then have "DTW ! 0 ! 1 = 7 * (10 / 100)" using c by fastforce
  then show ?thesis using r e d by blast
qed

text \<open>
  Claim C7. For rasters of one shape with at least one channel cell, \<open>calcDTW\<close>
  returns a raster that is 0 on every channel cell; and when the slope is one
  constant (a slope in percent is the size of a gradient and is never negative), the
  result does not decrease as the Euclidean distance to the nearest channel cell grows.
\<close>

theorem calcDTW_channel_zero_monotone:
  assumes a: "raster_on sh (FlowAccumulation filled_dem)" and s: "raster_on sh slope"
    and ne: "channel_cells (threshold fia) (FlowAccumulation filled_dem) \<noteq> {}"
  shows "\<exists>DTW. calcDTW FlowAccumulation no_background fia filled_dem slope = Inr DTW
    \<and> raster_on sh DTW
    \<and> (\<forall>p \<in> channel_cells (threshold fia) (FlowAccumulation filled_dem). DTW ! fst p ! snd p = 0)
    \<and> ((\<exists>c\<ge>0. \<forall>r \<in> set slope. \<forall>x \<in> set r. x = c) \<longrightarrow>
        (\<forall>p p'. in_grid DTW p \<and> in_grid DTW p'
           \<and> nearest_channel (threshold fia) (FlowAccumulation filled_dem) p
             \<le> nearest_channel (threshold fia) (FlowAccumulation filled_dem) p'
           \<longrightarrow> DTW ! fst p ! snd p \<le> DTW ! fst p' ! snd p'))"
proof -
  define accum where "accum = FlowAccumulation filled_dem"
  define t where "t = threshold fia"
  define inp where "inp = invert (flow_lines_of t accum)"
  define cost where "cost = distance_transform_edt no_background inp"
  define DTW where "DTW = map2 (map2 (*)) cost (map (map (\<lambda>s. s / 100)) slope)"
  have a': "raster_on sh accum" using a by (simp add: accum_def)
  have ri: "raster_on sh inp"
    unfolding inp_def invert_def flow_lines_of_def using a' by (intro raster_on_map)
  have bg: "set (background inp) = channel_cells t accum"
    by (simp add: inp_def channel_cells_background)
  have bne: "background inp \<noteq> []" using ne bg by (auto simp: accum_def t_def)
  have res: "calcDTW FlowAccumulation no_background fia filled_dem slope = Inr DTW"
    using calcDTW_rasters [of sh FlowAccumulation filled_dem slope no_background fia] a s
    by (simp add: DTW_def cost_def inp_def t_def accum_def)
  have cell: "DTW ! i ! j = cost ! i ! j * (slope ! i ! j / 100)" if "in_grid accum (i, j)" for i j
    using DTW_nth [OF a' s that] by (simp add: DTW_def cost_def inp_def)
  have grid: "in_grid x p \<longleftrightarrow> in_grid accum p" if "raster_on sh x" for x :: "'b array2" and p
    using that a' by (simp add: in_grid_raster)
  have rd: "raster_on sh DTW"
    using a' s by (simp add: DTW_def cost_def distance_transform_edt_def inp_def invert_def
        flow_lines_of_def raster_on_def list_all_length)
  have zero: "DTW ! fst p ! snd p = 0" if p: "p \<in> channel_cells t accum" for p
  proof -
    have g: "in_grid accum (fst p, snd p)" using p by (simp add: channel_cells_def)
    then have gi: "in_grid inp (fst p, snd p)" using grid [OF ri] by simp
    have "\<not> inp ! fst p ! snd p"
      using p bg by (auto simp: set_background)
    then have "cost ! fst p ! snd p = 0"
      unfolding cost_def using gi by (intro edt_zero_on_background)
    then show ?thesis using cell [OF g] by simp
  qed
  have near: "cost ! fst p ! snd p = nearest_channel t accum p" if g: "in_grid accum p" for p
  proof -
    have gi: "in_grid inp (fst p, snd p)" using g grid [OF ri] by simp
    show ?thesis
      unfolding cost_def nearest_channel_def using edt_nearest [OF gi bne] by (simp add: bg)
  qed
  have mono: "DTW ! fst p ! snd p \<le> DTW ! fst p' ! snd p'"
    if c: "0 \<le> c" "\<forall>r \<in> set slope. \<forall>x \<in> set r. x = c"
      and g: "in_grid DTW p" "in_grid DTW p'"
      and le: "nearest_channel t accum p \<le> nearest_channel t accum p'" for c p p'
  proof -
    have ga: "in_grid accum (fst p, snd p)" "in_grid accum (fst p', snd p')"
      using g grid [OF rd] by simp_all
    have sl: "slope ! fst q ! snd q = c" if "in_grid accum (fst q, snd q)" for q
    proof -
      have "in_grid slope q" using that grid [OF s] by simp
      then have "slope ! fst q \<in> set slope" "slope ! fst q ! snd q \<in> set (slope ! fst q)"
        by (simp_all add: in_grid_def)
      then show ?thesis using c(2) by blast
    qed
    have "cost ! fst p ! snd p \<le> cost ! fst p' ! snd p'"
      using near ga le by simp
    then have "cost ! fst p ! snd p * (c / 100) \<le> cost ! fst p' ! snd p' * (c / 100)"
      using c(1) by (intro mult_right_mono) simp_all
    then show ?thesis using cell [OF ga(1)] cell [OF ga(2)] sl [OF ga(1)] sl [OF ga(2)] by simp
  qed
  show ?thesis
    using res rd zero mono unfolding accum_def t_def by blast
qed

theorem calcDTW_channel_zero_monotone_witness:
  "raster_on (1, 3) [[1, 20, 1 :: real]] \<and> raster_on (1, 3) [[5, 5, 5 :: real]]
   \<and> channel_cells (threshold 1) [[1, 20, 1]] \<noteq> {}
   \<and> (\<exists>DTW. calcDTW (\<lambda>_. [[1, 20, 1]]) (\<lambda>_ _ _. 0) 1 [[3, 2, 3]] [[5, 5, 5]] = Inr DTW
        \<and> DTW ! 0 ! 1 = 0 \<and> DTW ! 0 ! 1 \<le> DTW ! 0 ! 0)"
proof -
  have r: "raster_on (1, 3) [[1, 20, 1 :: real]]" "raster_on (1, 3) [[5, 5, 5 :: real]]"
    by (simp_all add: raster_on_def)
  have ne: "channel_cells (threshold 1) [[1, 20, 1]] \<noteq> {}" by (simp add: channel_cells_row3)
  have c: "\<exists>c\<ge>0. \<forall>r \<in> set [[5, 5, 5 :: real]]. \<forall>x \<in> set r. x = c" by (intro exI [of _ 5]) simp
  obtain DTW where d: "calcDTW (\<lambda>_. [[1, 20, 1]]) (\<lambda>_ _ _. 0) 1 [[3, 2, 3]] [[5, 5, 5]] = Inr DTW"
    and rd: "raster_on (1, 3) DTW"
    and z: "\<forall>p \<in> channel_cells (threshold 1) [[1, 20, 1]]. DTW ! fst p ! snd p = 0"
    and m: "\<forall>p p'. in_grid DTW p \<and> in_grid DTW p'
           \<and> nearest_channel (threshold 1) [[1, 20, 1]] p \<le> nearest_channel (threshold 1) [[1, 20, 1]] p'
           \<longrightarrow> DTW ! fst p ! snd p \<le> DTW ! fst p' ! snd p'"
    using calcDTW_channel_zero_monotone [of "(1, 3)" "\<lambda>_. [[1, 20, 1]]" "[[3, 2, 3]]" "[[5, 5, 5]]" 1 "\<lambda>_ _ _. 0"]
      r ne c by blast
  have "DTW ! 0 ! 1 = 0" using z by (simp add: channel_cells_row3)
  moreover have "in_grid DTW (0, 1)" "in_grid DTW (0, 0)" using rd by (simp_all add: in_grid_raster)
  then have "DTW ! 0 ! 1 \<le> DTW ! 0 ! 0" using m nearest_row3 by fastforce
  ultimately show ?thesis using r ne d by blast
qed

section \<open>Kernels and terrain indices\<close>

subsection \<open>Kernel sums on the 5 by 5 window\<close>

lemma upt_5: "[0..<5] = [0, 1, 2, 3, 4]"
  by (simp add: upt_rec)

text \<open>
  Claim C8. On the window (5, 5) the queen kernel is all ones and sums to 25; the rook
  kernel is the centre row and the centre column and sums to 9; the bishop kernel is the
  two diagonals, the centre counted once, and sums to 9.
\<close>

theorem create_kernel_5x5_sums:
  "create_kernel (5, 5) Queen = Inr (replicate 5 (replicate 5 1))
   \<and> array_sum (replicate 5 (replicate 5 1)) = 25
   \<and> create_kernel (5, 5) Rook =
       Inr [[0, 0, 1, 0, 0], [0, 0, 1, 0, 0], [1, 1, 1, 1, 1], [0, 0, 1, 0, 0], [0, 0, 1, 0, 0]]
   \<and> array_sum [[0, 0, 1, 0, 0], [0, 0, 1, 0, 0], [1, 1, 1, 1, 1], [0, 0, 1, 0, 0], [0, 0, 1, 0, 0]] = 9
   \<and> create_kernel (5, 5) Bishop =
       Inr [[1, 0, 0, 0, 1], [0, 1, 0, 1, 0], [0, 0, 1, 0, 0], [0, 1, 0, 1, 0], [1, 0, 0, 0, 1]]
   \<and> array_sum [[1, 0, 0, 0, 1], [0, 1, 0, 1, 0], [0, 0, 1, 0, 0], [0, 1, 0, 1, 0], [1, 0, 0, 0, 1]] = 9"
  by (simp add: create_kernel_def kernel_of_def array_sum_def upt_5 eval_nat_numeral)

subsection \<open>Validation of the window\<close>

lemma create_kernel_valid:
  assumes "odd kx" "odd ky" "3 \<le> kx" "3 \<le> ky"
  shows "\<exists>f. create_kernel (kx, ky) m = Inr (kernel_of (nat ky) (nat kx) f)"
  using assms by (cases m) (auto simp: create_kernel_def Let_def)

lemma terrain_indices_valid:
  assumes "odd kx" "odd ky" "3 \<le> kx" "3 \<le> ky"
  shows "terrain_indices dem (kx, ky) m = Inl (ValueError ''Shape of array too small to calculate a numerical gradient'')
    \<or> (\<exists>t. terrain_indices dem (kx, ky) m = Inr t)"
proof -
  obtain f where "create_kernel (kx, ky) m = Inr (kernel_of (nat ky) (nat kx) f)"
    using create_kernel_valid [OF assms] by blast
  moreover have "\<not> min kx ky < 3" using assms by simp
  moreover have "\<not> (kx mod 2 = 0 \<or> ky mod 2 = 0)" using assms by (simp add: even_iff_mod_2_eq_zero)
  ultimately show ?thesis
    unfolding terrain_indices_def Let_def fst_conv snd_conv by (simp only: if_False sum.case) simp
qed

lemma terrain_indices_invalid:
  assumes "even kx \<or> even ky \<or> min kx ky < 3"
  shows "terrain_indices dem (kx, ky) m = Inl (ValueError ''Window size must be at least 3x3'')
      \<or> terrain_indices dem (kx, ky) m = Inl (ValueError ''Window size must be odd'')"
proof (cases "min kx ky < 3")
  case True
  then show ?thesis unfolding terrain_indices_def fst_conv snd_conv by (simp only: if_True) simp
next
  case False
  with assms have "kx mod 2 = 0 \<or> ky mod 2 = 0" by (auto simp: even_iff_mod_2_eq_zero)
  with False show ?thesis unfolding terrain_indices_def fst_conv snd_conv by (simp only: if_True if_False) simp
qed

text \<open>
  Claim C5. \<open>terrain_indices\<close> raises a descriptive \<open>ValueError\<close> whenever a
  dimension of the window is even or below 3, whatever the elevation raster and the
  method are (the two checks are its first statements, before the kernel is built); and
  for an odd window with both dimensions at least 3 it raises neither of the two errors.
\<close>

theorem terrain_indices_window_check:
  "(even kx \<or> even ky \<or> min kx ky < 3 \<longrightarrow>
      terrain_indices dem (kx, ky) m = Inl (ValueError ''Window size must be at least 3x3'')
      \<or> terrain_indices dem (kx, ky) m = Inl (ValueError ''Window size must be odd''))
   \<and> (odd kx \<and> odd ky \<and> 3 \<le> kx \<and> 3 \<le> ky \<longrightarrow>
      terrain_indices dem (kx, ky) m \<noteq> Inl (ValueError ''Window size must be at least 3x3'')
      \<and> terrain_indices dem (kx, ky) m \<noteq> Inl (ValueError ''Window size must be odd''))"
proof (intro conjI impI)
  assume "even kx \<or> even ky \<or> min kx ky < 3"
  then show "terrain_indices dem (kx, ky) m = Inl (ValueError ''Window size must be at least 3x3'')
      \<or> terrain_indices dem (kx, ky) m = Inl (ValueError ''Window size must be odd'')"
    by (rule terrain_indices_invalid)
next
  assume v: "odd kx \<and> odd ky \<and> 3 \<le> kx \<and> 3 \<le> ky"
  then have "terrain_indices dem (kx, ky) m = Inl (ValueError ''Shape of array too small to calculate a numerical gradient'')
    \<or> (\<exists>t. terrain_indices dem (kx, ky) m = Inr t)"
    using terrain_indices_valid by blast
  then show "terrain_indices dem (kx, ky) m \<noteq> Inl (ValueError ''Window size must be at least 3x3'')"
    by auto
next
  assume v: "odd kx \<and> odd ky \<and> 3 \<le> kx \<and> 3 \<le> ky"
  then have "terrain_indices dem (kx, ky) m = Inl (ValueError ''Shape of array too small to calculate a numerical gradient'')
    \<or> (\<exists>t. terrain_indices dem (kx, ky) m = Inr t)"
    using terrain_indices_valid by blast
  then show "terrain_indices dem (kx, ky) m \<noteq> Inl (ValueError ''Window size must be odd'')"
    by auto
qed

theorem terrain_indices_window_check_witness:
  "terrain_indices [] (4, 3) Queen = Inl (ValueError ''Window size must be odd'')
   \<and> terrain_indices [] (3, 1) Rook = Inl (ValueError ''Window size must be at least 3x3'')
   \<and> terrain_indices [] (3, 3) Queen \<noteq> Inl (ValueError ''Window size must be at least 3x3'')
   \<and> terrain_indices [] (3, 3) Queen \<noteq> Inl (ValueError ''Window size must be odd'')"
  using terrain_indices_window_check [of 4 3 "[]" Queen]
    terrain_indices_window_check [of 3 1 "[]" Rook]
    terrain_indices_window_check [of 3 3 "[]" Queen]
  by (simp add: terrain_indices_def)

subsection \<open>The position index near the edges\<close>







































end
